theory Spec2Isabelle
  imports Main
begin

section \<open>Python strings\<close>

text \<open>
  The label files of \<^verbatim>\<open>label_format_fix.py\<close> are opened in text mode, so the program
  works on Python \<^verbatim>\<open>str\<close> values. A \<^verbatim>\<open>str\<close> is modelled as a \<^typ>\<open>string\<close> whose
  characters are the code points below 256. Paths are strings as well.
\<close>

type_synonym path = string

definition newline :: char where
  "newline = CHR 0x0A"

definition backslash :: char where
  "backslash = CHR 0x5C"

text \<open>
  \<^verbatim>\<open>str.isspace\<close> on the code points below 256: tab, line feed, vertical tab, form feed,
  carriage return, the four separators 0x1C to 0x1F, space, NEL and the no-break space.
\<close>

definition is_space :: "char \<Rightarrow> bool" where
  "is_space c = (c \<in> set [CHR 0x09, CHR 0x0A, CHR 0x0B, CHR 0x0C, CHR 0x0D, CHR 0x1C,
                          CHR 0x1D, CHR 0x1E, CHR 0x1F, CHR 0x20, CHR 0x85, CHR 0xA0])"

text \<open>\<^verbatim>\<open>s.strip()\<close>\<close>

definition strip :: "string \<Rightarrow> string" where
  "strip s = rev (dropWhile is_space (rev (dropWhile is_space s)))"

text \<open>
  \<^verbatim>\<open>s.split(sep)\<close> for a one-character separator: the segments between the separators,
  empty ones included, so the result is never the empty list.
\<close>

fun split_on :: "(char \<Rightarrow> bool) \<Rightarrow> string \<Rightarrow> string list" where
  "split_on P [] = [[]]"
| "split_on P (c # cs) =
     (if P c then [] # split_on P cs
      else (case split_on P cs of [] \<Rightarrow> [[c]] | w # ws \<Rightarrow> (c # w) # ws))"

definition split_nl :: "string \<Rightarrow> string list" where
  "split_nl s = split_on (\<lambda>c. c = newline) s"

text \<open>\<^verbatim>\<open>s.split()\<close>: the maximal runs of characters that are not whitespace.\<close>

definition split_ws :: "string \<Rightarrow> string list" where
  "split_ws s = filter (\<lambda>w. w \<noteq> []) (split_on is_space s)"

text \<open>\<^verbatim>\<open>s.replace('\\n', '\n')\<close>: every backslash followed by \<^verbatim>\<open>n\<close> becomes a line feed,
  scanning from the left.\<close>

fun replace_escaped_nl :: "string \<Rightarrow> string" where
  "replace_escaped_nl (a # b # cs) =
     (if a = backslash \<and> b = CHR ''n'' then newline # replace_escaped_nl cs
      else a # replace_escaped_nl (b # cs))"
| "replace_escaped_nl cs = cs"

text \<open>\<^verbatim>\<open>sep.join(xs)\<close>\<close>

fun join :: "string \<Rightarrow> string list \<Rightarrow> string" where
  "join sep [] = []"
| "join sep [x] = x"
| "join sep (x # y # ys) = x @ sep @ join sep (y # ys)"

text \<open>\<^verbatim>\<open>sub in s\<close> for strings\<close>

fun contains :: "string \<Rightarrow> string \<Rightarrow> bool" where
  "contains sub [] = (sub = [])"
| "contains sub (c # cs) = (take (length sub) (c # cs) = sub \<or> contains sub cs)"

section \<open>Classification of a label file\<close>

text \<open>
  \<^verbatim>\<open>fix_label_format\<close> decides in its first lines what to do with the text it read:
  \<^verbatim>\<open>
    content = f.read().strip()
    if not content:
        return False, "Empty file"
    lines = content.split('\n')
    if len(lines) > 1:
        first_line_parts = lines[0].strip().split()
        if len(first_line_parts) == 5 or (len(first_line_parts) >= 7 and len(first_line_parts) % 2 == 1):
            return True, "Already correct format"
  \<close>
  \<open>recognized_count\<close> is the test on the number of tokens, \<open>classify\<close> the decision on
  the text returned by \<^verbatim>\<open>f.read()\<close>.
\<close>

datatype file_class = Empty | WellFormed | Malformed

definition recognized_count :: "nat \<Rightarrow> bool" where
  "recognized_count n = (n = 5 \<or> (n \<ge> 7 \<and> n mod 2 = 1))"

definition classify :: "string \<Rightarrow> file_class" where
  "classify raw =
     (let content = strip raw in
      if content = [] then Empty
      else let lines = split_nl content in
        if length lines > 1 \<and> recognized_count (length (split_ws (strip (hd lines))))
        then WellFormed
        else Malformed)"

section \<open>Python numbers\<close>

subsection \<open>Decimal digits\<close>

definition is_digit :: "char \<Rightarrow> bool" where
  "is_digit c = (c \<in> set ''0123456789'')"

text \<open>The value of a digit character is its place in \<open>0123456789\<close>.\<close>

definition digit_val :: "char \<Rightarrow> int" where
  "digit_val c = int (length (takeWhile (\<lambda>d. d \<noteq> c) ''0123456789''))"

definition digit_char :: "int \<Rightarrow> char" where
  "digit_char d = ''0123456789'' ! nat d"

definition digits_val :: "string \<Rightarrow> int" where
  "digits_val ds = foldl (\<lambda>a c. 10 * a + digit_val c) 0 ds"

text \<open>The decimal digits of a number \<open>n \<ge> 0\<close>, without leading zeros.\<close>

function digits_of :: "int \<Rightarrow> string" where
  "digits_of n = (if n < 10 then [digit_char n] else digits_of (n div 10) @ [digit_char (n mod 10)])"
  by pat_completeness auto
termination
  by (relation "measure nat") auto

declare digits_of.simps [simp del]

text \<open>The last \<open>w\<close> decimal digits of a number \<open>k \<ge> 0\<close>, with leading zeros.\<close>

fun fixed_digits :: "nat \<Rightarrow> int \<Rightarrow> string" where
  "fixed_digits 0 k = []"
| "fixed_digits (Suc w) k = fixed_digits w (k div 10) @ [digit_char (k mod 10)]"

text \<open>\<^verbatim>\<open>str(i)\<close> and \<^verbatim>\<open>f"{i}"\<close> for an \<^verbatim>\<open>int\<close>\<close>

definition py_str_int :: "int \<Rightarrow> string" where
  "py_str_int i = (if i < 0 then ''-'' @ digits_of (- i) else digits_of i)"

subsection \<open>\<^verbatim>\<open>int(token)\<close>\<close>

text \<open>
  \<^verbatim>\<open>int\<close> and \<^verbatim>\<open>float\<close> are only ever called on the tokens that \<^verbatim>\<open>split()\<close> returns,
  which hold no whitespace; the stripping of surrounding whitespace that both do first is
  therefore not modelled. \<open>None\<close> stands for \<^verbatim>\<open>ValueError\<close>.

  In both, an underscore may stand between two digits and nowhere else
  (\<open>underscores_ok\<close>, called with the character before the text, initially NUL).
\<close>

fun underscores_ok :: "char \<Rightarrow> string \<Rightarrow> bool" where
  "underscores_ok prev [] = (prev \<noteq> CHR ''_'')"
| "underscores_ok prev (c # cs) =
     ((if c = CHR ''_'' then is_digit prev else (prev = CHR ''_'' \<longrightarrow> is_digit c))
      \<and> underscores_ok c cs)"

definition split_sign :: "string \<Rightarrow> bool \<times> string" where
  "split_sign s =
     (case s of [] \<Rightarrow> (False, [])
      | c # r \<Rightarrow> if c = CHR ''-'' then (True, r) else if c = CHR ''+'' then (False, r) else (False, s))"

text \<open>\<^verbatim>\<open>sys.int_info.default_max_str_digits\<close>: a decimal text of more digits is refused.\<close>

definition max_str_digits :: nat where
  "max_str_digits = 4300"

definition py_int :: "string \<Rightarrow> int option" where
  "py_int token =
     (let (neg, body) = split_sign token in
      if body = [] \<or> \<not> list_all (\<lambda>c. is_digit c \<or> c = CHR ''_'') body
         \<or> \<not> underscores_ok (CHR 0x00) body then None
      else let ds = filter is_digit body in
        if length ds > max_str_digits then None
        else Some (if neg then - digits_val ds else digits_val ds))"

subsection \<open>Floats\<close>

text \<open>
  A Python \<^verbatim>\<open>float\<close> is an IEEE 754 binary64 value. \<open>Fin m s\<close> is the finite value
  \<open>m * 2 ^ s\<close> (plus zero is \<open>Fin 0 0\<close>); minus zero, the infinities and NaN are
  values of their own.
\<close>

datatype pyfloat = Fin int int | NegZero | PosInf | NegInf | NaN

text \<open>The integer nearest to \<open>n / d\<close> for \<open>d > 0\<close>, ties to the even one.\<close>

definition nearest_even :: "int \<Rightarrow> int \<Rightarrow> int" where
  "nearest_even n d =
     (let f = n div d; r = n mod d in
      if 2 * r < d then f else if d < 2 * r then f + 1 else if even f then f else f + 1)"

text \<open>\<^verbatim>\<open>n.bit_length()\<close>\<close>

function bit_length :: "int \<Rightarrow> int" where
  "bit_length n = (if n \<le> 0 then 0 else 1 + bit_length (n div 2))"
  by pat_completeness auto
termination
  by (relation "measure nat") auto

declare bit_length.simps [simp del]

text \<open>
  \<open>flog2 n d\<close> is the exponent \<open>e\<close> with \<open>2 ^ e \<le> n / d < 2 ^ (e + 1)\<close>, for positive
  \<open>n\<close> and \<open>d\<close>.
\<close>

definition flog2 :: "int \<Rightarrow> int \<Rightarrow> int" where
  "flog2 n d =
     (let k = bit_length n - bit_length d in
      if (if 0 \<le> k then d * 2 ^ nat k \<le> n else d \<le> n * 2 ^ nat (- k)) then k else k - 1)"

text \<open>
  The binary64 value nearest to \<open>n / d\<close> (with \<open>n \<ge> 0\<close> and \<open>d > 0\<close>), ties to even,
  with the sign \<open>neg\<close>: the result of a correctly rounded conversion from decimal text.
  The value has 53 significant bits, so neighbouring values around \<open>n / d\<close> are
  \<open>2 ^ s\<close> apart with \<open>s = flog2 n d - 52\<close>; below \<open>2 ^ - 1022\<close>, in the subnormal
  range, the spacing stays \<open>2 ^ - 1074\<close>. A magnitude that rounds to \<open>2 ^ 1024\<close> or
  more gives an infinity.
\<close>

definition round_double :: "bool \<Rightarrow> int \<Rightarrow> int \<Rightarrow> pyfloat" where
  "round_double neg n d =
     (let s = max (flog2 n d) (- 1022) - 52;
          m = (if 0 \<le> s then nearest_even n (d * 2 ^ nat s)
               else nearest_even (n * 2 ^ nat (- s)) d)
      in if m = 0 then (if neg then NegZero else Fin 0 0)
         else if 0 \<le> s \<and> 2 ^ 1024 \<le> m * 2 ^ nat s then (if neg then NegInf else PosInf)
         else Fin (if neg then - m else m) s)"

definition to_lower :: "char \<Rightarrow> char" where
  "to_lower c =
     (case map_of (zip ''ABCDEFGHIJKLMNOPQRSTUVWXYZ'' ''abcdefghijklmnopqrstuvwxyz'') c of
        None \<Rightarrow> c
      | Some l \<Rightarrow> l)"

definition parse_exponent :: "string \<Rightarrow> int option" where
  "parse_exponent s =
     (let (neg, ds) = split_sign s in
      if ds = [] \<or> \<not> list_all is_digit ds then None
      else Some (if neg then - digits_val ds else digits_val ds))"

definition is_exp_mark :: "char \<Rightarrow> bool" where
  "is_exp_mark c = (c = CHR ''e'' \<or> c = CHR ''E'')"

text \<open>
  An unsigned decimal numeral: digits with at most one point and at least one digit,
  then an optional exponent. The result is the exact value as a fraction \<open>(n, d)\<close>.
\<close>

definition parse_decimal :: "string \<Rightarrow> (int \<times> int) option" where
  "parse_decimal u =
     (let m = takeWhile (\<lambda>c. \<not> is_exp_mark c) u;
          r = dropWhile (\<lambda>c. \<not> is_exp_mark c) u;
          ip = takeWhile is_digit m;
          fr = dropWhile is_digit m
      in case (if fr = [] then Some []
               else if hd fr = CHR ''.'' \<and> list_all is_digit (tl fr) then Some (tl fr)
               else None) of
           None \<Rightarrow> None
         | Some fp \<Rightarrow>
             if ip = [] \<and> fp = [] then None
             else (case (if r = [] then Some 0 else parse_exponent (tl r)) of
                     None \<Rightarrow> None
                   | Some ex \<Rightarrow>
                       (let x = ex - int (length fp) in
                        Some (if 0 \<le> x then (digits_val (ip @ fp) * 10 ^ nat x, 1)
                              else (digits_val (ip @ fp), 10 ^ nat (- x))))))"

text \<open>\<^verbatim>\<open>float(token)\<close>\<close>

definition py_float :: "string \<Rightarrow> pyfloat option" where
  "py_float token =
     (if \<not> underscores_ok (CHR 0x00) token then None
      else let (neg, u) = split_sign (filter (\<lambda>c. c \<noteq> CHR ''_'') token);
               lu = map to_lower u
        in if lu = ''inf'' \<or> lu = ''infinity'' then Some (if neg then NegInf else PosInf)
           else if lu = ''nan'' then Some NaN
           else (case parse_decimal u of
                   None \<Rightarrow> None
                 | Some (n, d) \<Rightarrow> Some (round_double neg n d)))"

text \<open>The comparisons \<^verbatim>\<open>0 <= c\<close> and \<^verbatim>\<open>c <= 1\<close> of a float with an \<^verbatim>\<open>int\<close>\<close>

fun zero_le :: "pyfloat \<Rightarrow> bool" where
  "zero_le (Fin m s) = (0 \<le> m)"
| "zero_le NegZero = True"
| "zero_le PosInf = True"
| "zero_le NegInf = False"
| "zero_le NaN = False"

fun le_one :: "pyfloat \<Rightarrow> bool" where
  "le_one (Fin m s) = (if 0 \<le> s then m * 2 ^ nat s \<le> 1 else m \<le> 2 ^ nat (- s))"
| "le_one NegZero = True"
| "le_one PosInf = False"
| "le_one NegInf = True"
| "le_one NaN = False"

text \<open>
  \<^verbatim>\<open>f"{c:.6f}"\<close>: the value rounded to six decimals, ties to even, written as the digits
  before the point, the point and six digits after it. \<open>format_abs_6f m s\<close> does so for
  the magnitude \<open>m * 2 ^ s\<close>.
\<close>

definition format_abs_6f :: "int \<Rightarrow> int \<Rightarrow> string" where
  "format_abs_6f m s =
     (let k = (if 0 \<le> s then m * 1000000 * 2 ^ nat s
               else nearest_even (m * 1000000) (2 ^ nat (- s)))
      in digits_of (k div 1000000) @ ''.'' @ fixed_digits 6 (k mod 1000000))"

fun format_6f :: "pyfloat \<Rightarrow> string" where
  "format_6f (Fin m s) = (if m < 0 then ''-'' else []) @ format_abs_6f \<bar>m\<bar> s"
| "format_6f NegZero = ''-'' @ format_abs_6f 0 0"
| "format_6f PosInf = ''inf''"
| "format_6f NegInf = ''-inf''"
| "format_6f NaN = ''nan''"

section \<open>Repairing a label file\<close>

subsection \<open>One annotation line\<close>

text \<open>\<^verbatim>\<open>[float(x) for x in tokens]\<close>: the first token that is no float raises.\<close>

fun map_float :: "string list \<Rightarrow> pyfloat list option" where
  "map_float [] = Some []"
| "map_float (t # ts) =
     (case py_float t of
        None \<Rightarrow> None
      | Some c \<Rightarrow> (case map_float ts of None \<Rightarrow> None | Some cs \<Rightarrow> Some (c # cs)))"

text \<open>
  The two statements under \<^verbatim>\<open>try\<close>, the same in every branch:
  \<^verbatim>\<open>
    class_id = int(parts[0])
    coords = [float(x) for x in parts[1:]]
  \<close>
  \<open>None\<close> is the \<^verbatim>\<open>ValueError\<close> that the \<^verbatim>\<open>except\<close> clause catches.
\<close>

definition parse_values :: "string list \<Rightarrow> (int \<times> pyfloat list) option" where
  "parse_values parts =
     (case py_int (hd parts) of
        None \<Rightarrow> None
      | Some class_id \<Rightarrow>
          (case map_float (tl parts) of
             None \<Rightarrow> None
           | Some coords \<Rightarrow> Some (class_id, coords)))"

text \<open>\<^verbatim>\<open>0 <= c <= 1\<close>\<close>

definition in_unit :: "pyfloat \<Rightarrow> bool" where
  "in_unit c = (zero_le c \<and> le_one c)"

text \<open>\<^verbatim>\<open>0 <= class_id <= 39 and all(0 <= c <= 1 for c in coords)\<close>\<close>

definition values_valid :: "int \<Rightarrow> pyfloat list \<Rightarrow> bool" where
  "values_valid class_id coords = (0 \<le> class_id \<and> class_id \<le> 39 \<and> list_all in_unit coords)"

text \<open>
  The body of the loop over \<^verbatim>\<open>all_annotations\<close> in \<^verbatim>\<open>fix_label_format\<close>: the text that
  the line appends to \<^verbatim>\<open>fixed_lines\<close>, or \<open>None\<close> when it appends nothing.
\<close>

definition fix_line :: "string \<Rightarrow> string option" where
  "fix_line annotation_line =
     (let line = strip annotation_line in
      if line = [] then None
      else let parts = split_ws line in
        if length parts = 5 then
          (case parse_values parts of
             None \<Rightarrow> None
           | Some (class_id, coords) \<Rightarrow>
               if values_valid class_id coords
               then Some (py_str_int class_id @ '' '' @ format_6f (coords ! 0) @ '' ''
                          @ format_6f (coords ! 1) @ '' '' @ format_6f (coords ! 2) @ '' ''
                          @ format_6f (coords ! 3))
               else None)
        else if length parts \<ge> 7 \<and> length parts mod 2 = 1 then
          (case parse_values parts of
             None \<Rightarrow> None
           | Some (class_id, coords) \<Rightarrow>
               if values_valid class_id coords
               then Some (py_str_int class_id @ '' '' @ join '' '' (map format_6f coords))
               else None)
        else None)"

text \<open>The loop: \<^verbatim>\<open>fixed_lines\<close> after all the lines.\<close>

fun fix_lines :: "string list \<Rightarrow> string list" where
  "fix_lines [] = []"
| "fix_lines (annotation_line # rest) =
     (case fix_line annotation_line of
        None \<Rightarrow> fix_lines rest
      | Some out \<Rightarrow> out # fix_lines rest)"

text \<open>\<^verbatim>\<open>all_annotations = content.replace('\\n', '\n').split('\n')\<close>\<close>

definition all_annotations :: "string \<Rightarrow> string list" where
  "all_annotations content = split_nl (replace_escaped_nl content)"

text \<open>\<^verbatim>\<open>'\n'.join(fixed_lines) + '\n'\<close>\<close>

definition serialize :: "string list \<Rightarrow> string" where
  "serialize fixed_lines = join [newline] fixed_lines @ [newline]"

subsection \<open>Files\<close>

text \<open>
  A file on disk either gives its text when read or raises (\<open>Inl\<close> holds \<^verbatim>\<open>str(e)\<close> of the
  exception), and opening it for writing either works or raises. The world is the disk and
  the list of the calls that opened a file for writing, with the text to be written.
\<close>

record file_entry =
  read_result :: "string + string"
  write_error :: "string option"

record world =
  disk :: "path \<Rightarrow> file_entry"
  write_calls :: "(path \<times> string) list"

definition read_file :: "world \<Rightarrow> path \<Rightarrow> string + string" where
  "read_file w p = read_result (disk w p)"

definition write_file :: "world \<Rightarrow> path \<Rightarrow> string \<Rightarrow> string option \<times> world" where
  "write_file w p text =
     (let w1 = w\<lparr>write_calls := write_calls w @ [(p, text)]\<rparr> in
      case write_error (disk w p) of
        Some e \<Rightarrow> (Some e, w1)
      | None \<Rightarrow> (None, w1\<lparr>disk := (disk w)(p := \<lparr>read_result = Inr text, write_error = None\<rparr>)\<rparr>))"

subsection \<open>\<^verbatim>\<open>fix_label_format\<close>\<close>

text \<open>
  The body of the \<^verbatim>\<open>try\<close> statement: \<open>Inl e\<close> is an exception with \<^verbatim>\<open>str(e) = e\<close>,
  \<open>Inr\<close> the returned pair.
\<close>

definition fix_label_format_try :: "world \<Rightarrow> path \<Rightarrow> (string + bool \<times> string) \<times> world" where
  "fix_label_format_try w label_file =
     (case read_file w label_file of
        Inl e \<Rightarrow> (Inl e, w)
      | Inr raw \<Rightarrow>
          (case classify raw of
             Empty \<Rightarrow> (Inr (False, ''Empty file''), w)
           | WellFormed \<Rightarrow> (Inr (True, ''Already correct format''), w)
           | Malformed \<Rightarrow>
               (let fixed_lines = fix_lines (all_annotations (strip raw)) in
                if fixed_lines \<noteq> [] then
                  (case write_file w label_file (serialize fixed_lines) of
                     (Some e, w') \<Rightarrow> (Inl e, w')
                   | (None, w') \<Rightarrow>
                       (Inr (True, ''Fixed '' @ py_str_int (int (length fixed_lines))
                                   @ '' annotations''), w'))
                else (Inr (False, ''No valid annotations found''), w))))"

text \<open>With \<^verbatim>\<open>except Exception as e: return False, f"Error: {e}"\<close>\<close>

definition fix_label_format :: "world \<Rightarrow> path \<Rightarrow> (bool \<times> string) \<times> world" where
  "fix_label_format w label_file =
     (case fix_label_format_try w label_file of
        (Inl e, w') \<Rightarrow> ((False, ''Error: '' @ e), w')
      | (Inr r, w') \<Rightarrow> (r, w'))"

subsection \<open>\<^verbatim>\<open>fix_all_labels\<close>\<close>

record stats =
  fixed :: nat
  already_correct :: nat
  errors :: nat
  empty :: nat

text \<open>The \<^verbatim>\<open>if success: ... else: ...\<close> that follows each call of \<^verbatim>\<open>fix_label_format\<close>\<close>

definition count_result :: "stats \<Rightarrow> bool \<times> string \<Rightarrow> stats" where
  "count_result st r =
     (case r of (success, message) \<Rightarrow>
        if success then
          (if contains ''Already correct'' message
           then st\<lparr>already_correct := already_correct st + 1\<rparr>
           else st\<lparr>fixed := fixed st + 1\<rparr>)
        else
          (if contains ''Empty file'' message
           then st\<lparr>empty := empty st + 1\<rparr>
           else st\<lparr>errors := errors st + 1\<rparr>))"

text \<open>The loop over the label files of one split\<close>

fun fix_files :: "stats \<times> world \<Rightarrow> path list \<Rightarrow> stats \<times> world" where
  "fix_files (st, w) [] = (st, w)"
| "fix_files (st, w) (label_file # rest) =
     (case fix_label_format w label_file of
        (r, w') \<Rightarrow> fix_files (count_result st r, w') rest)"

text \<open>
  The directory tree: whether \<^verbatim>\<open>labels\<close> exists, and for each split the \<^verbatim>\<open>*.txt\<close> files
  of its directory (\<open>None\<close> when the directory is missing).
\<close>

record dataset =
  labels_exists :: bool
  label_files :: "string \<Rightarrow> path list option"

definition fix_split :: "dataset \<Rightarrow> stats \<times> world \<Rightarrow> string \<Rightarrow> stats \<times> world" where
  "fix_split ds sw split =
     (case label_files ds split of None \<Rightarrow> sw | Some files \<Rightarrow> fix_files sw files)"

text \<open>The result is the summary that is printed, or \<open>None\<close> when the function returns early.\<close>

definition fix_all_labels :: "dataset \<Rightarrow> world \<Rightarrow> stats option \<times> world" where
  "fix_all_labels ds w =
     (if \<not> labels_exists ds then (None, w)
      else (case foldl (fix_split ds)
                   (\<lparr>fixed = 0, already_correct = 0, errors = 0, empty = 0\<rparr>, w)
                   [''train'', ''val'', ''test''] of
              (st, w') \<Rightarrow> (Some st, w')))"

section \<open>Verification\<close>

text \<open>\<^verbatim>\<open>f.readlines()\<close>: the lines of the text, each with its line feed.\<close>

fun readlines :: "string \<Rightarrow> string list" where
  "readlines [] = []"
| "readlines (c # cs) =
     (if c = newline then [c] # readlines cs
      else (case readlines cs of [] \<Rightarrow> [[c]] | l # ls \<Rightarrow> (c # l) # ls))"

text \<open>
  The counters of \<^verbatim>\<open>verify_fixed_format\<close> for one split, and the loop over the lines of
  one file. The loop state is \<^verbatim>\<open>file_valid\<close>, \<^verbatim>\<open>file_objects\<close>, \<^verbatim>\<open>bbox_count\<close> and
  \<^verbatim>\<open>polygon_count\<close>; \<^verbatim>\<open>break\<close> returns it at once.
\<close>

record split_counts =
  valid_files :: nat
  total_objects :: nat
  bbox_count :: nat
  polygon_count :: nat

fun verify_lines :: "bool \<times> nat \<times> nat \<times> nat \<Rightarrow> string list \<Rightarrow> bool \<times> nat \<times> nat \<times> nat" where
  "verify_lines s [] = s"
| "verify_lines (file_valid, file_objects, bboxes, polygons) (l # rest) =
     (let line = strip l in
      if line = [] then verify_lines (file_valid, file_objects, bboxes, polygons) rest
      else let parts = split_ws line in
        if length parts = 5 then
          (case parse_values parts of
             None \<Rightarrow> (False, file_objects, bboxes, polygons)
           | Some (class_id, coords) \<Rightarrow>
               if \<not> (0 \<le> class_id \<and> class_id \<le> 39) \<or> \<not> list_all in_unit coords
               then (False, file_objects, bboxes, polygons)
               else verify_lines (file_valid, file_objects + 1, bboxes + 1, polygons) rest)
        else if length parts \<ge> 7 \<and> length parts mod 2 = 1 then
          (case parse_values parts of
             None \<Rightarrow> (False, file_objects, bboxes, polygons)
           | Some (class_id, coords) \<Rightarrow>
               if \<not> (0 \<le> class_id \<and> class_id \<le> 39) \<or> \<not> list_all in_unit coords
               then (False, file_objects, bboxes, polygons)
               else verify_lines (file_valid, file_objects + 1, bboxes, polygons + 1) rest)
        else (False, file_objects, bboxes, polygons))"

text \<open>
  One round of the loop over the label files of a split. A file that cannot be read and a
  file without lines leave the counters as they are.
\<close>

definition verify_file :: "world \<Rightarrow> split_counts \<Rightarrow> path \<Rightarrow> split_counts" where
  "verify_file w c label_file =
     (case read_file w label_file of
        Inl e \<Rightarrow> c
      | Inr text \<Rightarrow>
          (let lines = readlines text in
           if lines = [] then c
           else (case verify_lines (True, 0, bbox_count c, polygon_count c) lines of
                   (file_valid, file_objects, bboxes, polygons) \<Rightarrow>
                     (if file_valid \<and> file_objects > 0
                      then c\<lparr>valid_files := valid_files c + 1,
                             total_objects := total_objects c + file_objects,
                             bbox_count := bboxes, polygon_count := polygons\<rparr>
                      else c\<lparr>bbox_count := bboxes, polygon_count := polygons\<rparr>))))"

section \<open>An example world\<close>

text \<open>
  For examples: a world in which every path is a file with the text \<open>t\<close> that can be
  read and written, and nothing has been written yet.
\<close>

definition single_file_world :: "string \<Rightarrow> world" where
  "single_file_world t =
     \<lparr>disk = (\<lambda>p. \<lparr>read_result = Inr t, write_error = None\<rparr>), write_calls = []\<rparr>"

section \<open>Facts about the string operations\<close>

lemma split_on_nonempty [simp]: "split_on P s \<noteq> []"
  by (induction s) (auto split: list.splits)

lemma split_on_sep: "P c \<Longrightarrow> split_on P (xs @ c # ys) = split_on P xs @ split_on P ys"
proof (induction xs)
  case Nil
  then show ?case by simp
next
  case (Cons x xs)
  then show ?case
    by (cases "split_on P xs") (auto split: list.splits)
qed

lemma split_ws_Cons_space: "is_space c \<Longrightarrow> split_ws (c # s) = split_ws s"
  by (simp add: split_ws_def)

lemma split_ws_leading: "split_ws (dropWhile is_space s) = split_ws s"
  by (induction s) (simp_all add: split_ws_Cons_space)

lemma split_ws_snoc_space: "is_space c \<Longrightarrow> split_ws (s @ [c]) = split_ws s"
  using split_on_sep [of is_space c s "[]"] by (simp add: split_ws_def)

lemma split_ws_trailing: "list_all is_space b \<Longrightarrow> split_ws (a @ b) = split_ws a"
proof (induction b arbitrary: a)
  case Nil
  then show ?case by simp
next
  case (Cons c b)
  have "split_ws (a @ c # b) = split_ws (a @ [c])"
    using Cons.IH [of "a @ [c]"] Cons.prems by simp
  also have "\<dots> = split_ws a"
    using Cons.prems by (simp add: split_ws_snoc_space)
  finally show ?case .
qed

lemma rev_dropWhile_rev:
  "s = rev (dropWhile P (rev s)) @ rev (takeWhile P (rev s))"
  by (metis rev_append rev_rev_ident takeWhile_dropWhile_id)

lemma split_ws_rstrip: "split_ws (rev (dropWhile is_space (rev s))) = split_ws s"
proof -
  have "list_all is_space (rev (takeWhile is_space (rev s)))"
    by (simp add: list_all_iff) (meson set_takeWhileD)
  then have "split_ws (rev (dropWhile is_space (rev s)) @ rev (takeWhile is_space (rev s)))
             = split_ws (rev (dropWhile is_space (rev s)))"
    by (rule split_ws_trailing)
  then show ?thesis using rev_dropWhile_rev [of s is_space] by simp
qed

lemma split_ws_strip: "split_ws (strip s) = split_ws s"
  by (simp add: strip_def split_ws_rstrip split_ws_leading)

section \<open>Facts about the repair of a line\<close>

lemma strip_empty_split_ws: "strip l = [] \<Longrightarrow> split_ws l = []"
  using split_ws_strip [of l] by (simp add: split_ws_def)

lemma map_float_accept:
  "(\<exists>cs. map_float ts = Some cs \<and> list_all in_unit cs) \<longleftrightarrow>
   (\<forall>t\<in>set ts. \<exists>c. py_float t = Some c \<and> in_unit c)"
  by (induction ts) (auto split: option.splits)

lemma length_map_float: "map_float ts = Some cs \<Longrightarrow> length cs = length ts"
  by (induction ts arbitrary: cs) (auto split: option.splits)

lemma fix_line_accept:
  assumes "recognized_count (length (split_ws l))"
  shows "fix_line l \<noteq> None \<longleftrightarrow>
         (\<exists>class_id coords. parse_values (split_ws l) = Some (class_id, coords)
            \<and> values_valid class_id coords)"
proof -
  have "strip l \<noteq> []"
    using assms strip_empty_split_ws [of l] by (auto simp: recognized_count_def)
  then show ?thesis
    using assms
    by (auto simp: fix_line_def Let_def split_ws_strip recognized_count_def split: option.splits)
qed

lemma fix_line_other_count:
  assumes "\<not> recognized_count (length (split_ws l))"
  shows "fix_line l = None"
  using assms by (auto simp: fix_line_def Let_def split_ws_strip recognized_count_def)

lemma parse_values_accept:
  "(\<exists>class_id coords. parse_values (t0 # ts) = Some (class_id, coords)
       \<and> values_valid class_id coords)
   \<longleftrightarrow> (\<exists>class_id. py_int t0 = Some class_id \<and> 0 \<le> class_id \<and> class_id \<le> 39) \<and>
        (\<forall>t\<in>set ts. \<exists>c. py_float t = Some c \<and> in_unit c)"
  using map_float_accept [of ts]
  by (auto simp: parse_values_def values_valid_def split: option.splits)

lemma fix_lines_append: "fix_lines (xs @ ys) = fix_lines xs @ fix_lines ys"
  by (induction xs) (auto split: option.splits)

lemma fix_lines_discard:
  "fix_line l = None \<Longrightarrow> fix_lines (before @ l # after) = fix_lines before @ fix_lines after"
  by (simp add: fix_lines_append)

section \<open>The claims\<close>

text \<open>
  C1. \<open>classify\<close>, applied to the text of a label file, gives \<open>Empty\<close> exactly when the
  text stripped of surrounding whitespace is empty; it gives \<open>WellFormed\<close> exactly when
  the stripped text splits at line feeds into more than one segment and the first segment,
  split at whitespace, has 5 tokens or an odd number of at least 7 tokens; it gives
  \<open>Malformed\<close> in every other case. A text of a single segment is never \<open>WellFormed\<close>,
  whatever the number of its tokens.
\<close>

theorem classify_characterisation:
  "(classify raw = Empty \<longleftrightarrow> strip raw = []) \<and>
   (classify raw = WellFormed \<longleftrightarrow>
      1 < length (split_nl (strip raw)) \<and>
      (length (split_ws (hd (split_nl (strip raw)))) = 5 \<or>
       (odd (length (split_ws (hd (split_nl (strip raw))))) \<and>
        7 \<le> length (split_ws (hd (split_nl (strip raw))))))) \<and>
   (classify raw = Malformed \<longleftrightarrow>
      strip raw \<noteq> [] \<and>
      \<not> (1 < length (split_nl (strip raw)) \<and>
         (length (split_ws (hd (split_nl (strip raw)))) = 5 \<or>
          (odd (length (split_ws (hd (split_nl (strip raw))))) \<and>
           7 \<le> length (split_ws (hd (split_nl (strip raw)))))))) \<and>
   (length (split_nl (strip raw)) = 1 \<longrightarrow> classify raw \<noteq> WellFormed)"
proof -
  have nl: "strip raw = [] \<Longrightarrow> length (split_nl (strip raw)) = 1"
    by (simp add: split_nl_def)
  show ?thesis
    using nl
    by (auto simp add: classify_def Let_def recognized_count_def split_ws_strip odd_iff_mod_2_eq_one)
qed

theorem classify_characterisation_witness:
  "classify ''  '' = Empty \<and>
   classify (''0 0 0 0 0'' @ [newline] @ ''0 0 0 0 0'') = WellFormed \<and>
   classify (''0 0 0 0 0 0 0'' @ [newline] @ ''x'') = WellFormed \<and>
   classify (''0 0 0 0 0 0'' @ [newline] @ ''0 0 0 0 0'') = Malformed \<and>
   length (split_nl (strip ''0 0 0 0 0'')) = 1 \<and> classify ''0 0 0 0 0'' \<noteq> WellFormed"
proof -
  have a: "strip ''  '' = []"
    by code_simp
  have b: "1 < length (split_nl (strip (''0 0 0 0 0'' @ [newline] @ ''0 0 0 0 0''))) \<and>
           length (split_ws (hd (split_nl (strip (''0 0 0 0 0'' @ [newline] @ ''0 0 0 0 0''))))) = 5"
    by code_simp
  have c: "1 < length (split_nl (strip (''0 0 0 0 0 0 0'' @ [newline] @ ''x''))) \<and>
           odd (length (split_ws (hd (split_nl (strip (''0 0 0 0 0 0 0'' @ [newline] @ ''x'')))))) \<and>
           7 \<le> length (split_ws (hd (split_nl (strip (''0 0 0 0 0 0 0'' @ [newline] @ ''x'')))))"
    by code_simp
  have d: "strip (''0 0 0 0 0 0'' @ [newline] @ ''0 0 0 0 0'') \<noteq> [] \<and>
           length (split_ws (hd (split_nl (strip (''0 0 0 0 0 0'' @ [newline] @ ''0 0 0 0 0''))))) = 6"
    by code_simp
  have e: "length (split_nl (strip ''0 0 0 0 0'')) = 1"
    by code_simp
  show ?thesis
    using a b c d e
      classify_characterisation [of "''  ''"]
      classify_characterisation [of "''0 0 0 0 0'' @ [newline] @ ''0 0 0 0 0''"]
      classify_characterisation [of "''0 0 0 0 0 0 0'' @ [newline] @ ''x''"]
      classify_characterisation [of "''0 0 0 0 0 0'' @ [newline] @ ''0 0 0 0 0''"]
      classify_characterisation [of "''0 0 0 0 0''"]
    by simp
qed

text \<open>
  C2. A line of five tokens is accepted by the repair (it appends a text to
  \<^verbatim>\<open>fixed_lines\<close>) exactly when its first token is read by \<^verbatim>\<open>int\<close> as a number from 0
  to 39 and each of the other four is read by \<^verbatim>\<open>float\<close> as a value \<open>c\<close> with
  \<^verbatim>\<open>0 <= c <= 1\<close>. A line that is not accepted adds nothing to the output, and the lines
  before and after it are processed as if it were not there.
\<close>

theorem box_line_acceptance:
  assumes "split_ws annotation_line = [t0, t1, t2, t3, t4]"
  shows "(fix_line annotation_line \<noteq> None \<longleftrightarrow>
            (\<exists>class_id. py_int t0 = Some class_id \<and> 0 \<le> class_id \<and> class_id \<le> 39) \<and>
            (\<forall>t\<in>set [t1, t2, t3, t4]. \<exists>c. py_float t = Some c \<and> zero_le c \<and> le_one c)) \<and>
         (fix_line annotation_line = None \<longrightarrow>
            (\<forall>before after. fix_lines (before @ annotation_line # after)
                               = fix_lines before @ fix_lines after))"
proof -
  have "recognized_count (length (split_ws annotation_line))"
    using assms by (simp add: recognized_count_def)
  then show ?thesis
    using fix_line_accept [of annotation_line] parse_values_accept [of t0 "[t1, t2, t3, t4]"] assms
    by (simp add: fix_lines_discard in_unit_def)
qed

theorem box_line_acceptance_witness:
  "split_ws ''40 0.1 0.2 0.3 0.4'' = [''40'', ''0.1'', ''0.2'', ''0.3'', ''0.4''] \<and>
   fix_line ''40 0.1 0.2 0.3 0.4'' = None \<and>
   fix_lines ([''0 0 1 0.5 1''] @ ''40 0.1 0.2 0.3 0.4'' # [''1 0 0 0 0''])
     = fix_lines [''0 0 1 0.5 1''] @ fix_lines [''1 0 0 0 0''] \<and>
   split_ws ''0 0 1 0.5 1'' = [''0'', ''0'', ''1'', ''0.5'', ''1''] \<and>
   fix_line ''0 0 1 0.5 1'' \<noteq> None"
proof -
  have s1: "split_ws ''40 0.1 0.2 0.3 0.4'' = [''40'', ''0.1'', ''0.2'', ''0.3'', ''0.4'']"
    by code_simp
  have i1: "py_int ''40'' = Some 40"
    by code_simp
  have n1: "fix_line ''40 0.1 0.2 0.3 0.4'' = None"
    using box_line_acceptance [OF s1] i1 by simp
  have d1: "fix_lines ([''0 0 1 0.5 1''] @ ''40 0.1 0.2 0.3 0.4'' # [''1 0 0 0 0''])
              = fix_lines [''0 0 1 0.5 1''] @ fix_lines [''1 0 0 0 0'']"
    using box_line_acceptance [OF s1] n1 by blast
  have s2: "split_ws ''0 0 1 0.5 1'' = [''0'', ''0'', ''1'', ''0.5'', ''1'']"
    by code_simp
  have i2: "py_int ''0'' = Some 0"
    by code_simp
  have f0: "py_float ''0'' = Some (Fin 0 0) \<and> zero_le (Fin 0 0) \<and> le_one (Fin 0 0)"
    by code_simp
  have f1: "py_float ''1'' = Some (Fin 4503599627370496 (- 52))
            \<and> zero_le (Fin 4503599627370496 (- 52)) \<and> le_one (Fin 4503599627370496 (- 52))"
    by code_simp
  have f2: "py_float ''0.5'' = Some (Fin 4503599627370496 (- 53))
            \<and> zero_le (Fin 4503599627370496 (- 53)) \<and> le_one (Fin 4503599627370496 (- 53))"
    by code_simp
  have a2: "fix_line ''0 0 1 0.5 1'' \<noteq> None"
    using box_line_acceptance [OF s2] i2 f0 f1 f2 by simp
  show ?thesis
    using s1 n1 d1 s2 a2 by blast
qed

text \<open>
  C3. A line whose number of tokens is odd and at least 7 is accepted exactly when its
  first token is read by \<^verbatim>\<open>int\<close> as a number from 0 to 39 and every other token is read
  by \<^verbatim>\<open>float\<close> as a value \<open>c\<close> with \<^verbatim>\<open>0 <= c <= 1\<close>. A line with any other number of
  tokens (not 5, and not odd and at least 7) appends nothing and raises nothing: the lines
  around it are processed as if it were not there. The line of 7 tokens
  \<^verbatim>\<open>4 0.02 0.42 0.28 0.41 0.31 0.40\<close> is accepted, with its three points.
\<close>

theorem polygon_line_acceptance:
  "(split_ws annotation_line = t0 # ts \<and> 6 \<le> length ts \<and> even (length ts) \<longrightarrow>
      (fix_line annotation_line \<noteq> None \<longleftrightarrow>
         (\<exists>class_id. py_int t0 = Some class_id \<and> 0 \<le> class_id \<and> class_id \<le> 39) \<and>
         (\<forall>t\<in>set ts. \<exists>c. py_float t = Some c \<and> zero_le c \<and> le_one c))) \<and>
   (length (split_ws annotation_line) \<noteq> 5 \<and>
    \<not> (7 \<le> length (split_ws annotation_line) \<and> odd (length (split_ws annotation_line))) \<longrightarrow>
      fix_line annotation_line = None \<and>
      (\<forall>before after. fix_lines (before @ annotation_line # after)
                         = fix_lines before @ fix_lines after)) \<and>
   fix_line ''4 0.02 0.42 0.28 0.41 0.31 0.40''
     = Some ''4 0.020000 0.420000 0.280000 0.410000 0.310000 0.400000''"
proof (intro conjI impI)
  assume a: "split_ws annotation_line = t0 # ts \<and> 6 \<le> length ts \<and> even (length ts)"
  then have "recognized_count (length (split_ws annotation_line))"
    by (auto simp: recognized_count_def odd_iff_mod_2_eq_one [symmetric])
  then show "fix_line annotation_line \<noteq> None \<longleftrightarrow>
         (\<exists>class_id. py_int t0 = Some class_id \<and> 0 \<le> class_id \<and> class_id \<le> 39) \<and>
         (\<forall>t\<in>set ts. \<exists>c. py_float t = Some c \<and> zero_le c \<and> le_one c)"
    using fix_line_accept [of annotation_line] parse_values_accept [of t0 ts] a
    by (simp add: in_unit_def)
next
  assume b: "length (split_ws annotation_line) \<noteq> 5 \<and>
    \<not> (7 \<le> length (split_ws annotation_line) \<and> odd (length (split_ws annotation_line)))"
  then have "\<not> recognized_count (length (split_ws annotation_line))"
    by (auto simp: recognized_count_def odd_iff_mod_2_eq_one)
  then show n: "fix_line annotation_line = None"
    by (rule fix_line_other_count)
  show "\<forall>before after. fix_lines (before @ annotation_line # after)
                         = fix_lines before @ fix_lines after"
    using n by (simp add: fix_lines_discard)
next
  show "fix_line ''4 0.02 0.42 0.28 0.41 0.31 0.40''
     = Some ''4 0.020000 0.420000 0.280000 0.410000 0.310000 0.400000''"
    by code_simp
qed

theorem polygon_line_acceptance_witness:
  "split_ws ''0 0 1 0 1 0 1'' = ''0'' # [''0'', ''1'', ''0'', ''1'', ''0'', ''1''] \<and>
   fix_line ''0 0 1 0 1 0 1'' \<noteq> None \<and>
   split_ws ''0 0 2 0 1 0 1'' = ''0'' # [''0'', ''2'', ''0'', ''1'', ''0'', ''1''] \<and>
   fix_line ''0 0 2 0 1 0 1'' = None \<and>
   length (split_ws ''0 0 1 0 1 0'') = 6 \<and>
   fix_line ''0 0 1 0 1 0'' = None \<and>
   fix_lines ([''0 0 1 0 1 0 1''] @ ''0 0 1 0 1 0'' # [''1 0 0 0 0''])
     = fix_lines [''0 0 1 0 1 0 1''] @ fix_lines [''1 0 0 0 0'']"
proof -
  have s1: "split_ws ''0 0 1 0 1 0 1'' = ''0'' # [''0'', ''1'', ''0'', ''1'', ''0'', ''1'']"
    by code_simp
  have i0: "py_int ''0'' = Some 0"
    by code_simp
  have f0: "py_float ''0'' = Some (Fin 0 0) \<and> zero_le (Fin 0 0) \<and> le_one (Fin 0 0)"
    by code_simp
  have f1: "py_float ''1'' = Some (Fin 4503599627370496 (- 52))
            \<and> zero_le (Fin 4503599627370496 (- 52)) \<and> le_one (Fin 4503599627370496 (- 52))"
    by code_simp
  have a1: "fix_line ''0 0 1 0 1 0 1'' \<noteq> None"
    using polygon_line_acceptance [of "''0 0 1 0 1 0 1''" "''0''" "[''0'', ''1'', ''0'', ''1'', ''0'', ''1'']"]
      s1 i0 f0 f1 by simp
  have s2: "split_ws ''0 0 2 0 1 0 1'' = ''0'' # [''0'', ''2'', ''0'', ''1'', ''0'', ''1'']"
    by code_simp
  have f2: "py_float ''2'' = Some (Fin 4503599627370496 (- 51))
            \<and> \<not> le_one (Fin 4503599627370496 (- 51))"
    by code_simp
  have n2: "fix_line ''0 0 2 0 1 0 1'' = None"
    using polygon_line_acceptance [of "''0 0 2 0 1 0 1''" "''0''" "[''0'', ''2'', ''0'', ''1'', ''0'', ''1'']"]
      s2 f2 by simp
  have s3: "length (split_ws ''0 0 1 0 1 0'') = 6"
    by code_simp
  have n3: "fix_line ''0 0 1 0 1 0'' = None \<and>
      (\<forall>before after. fix_lines (before @ ''0 0 1 0 1 0'' # after)
                         = fix_lines before @ fix_lines after)"
    using polygon_line_acceptance [of "''0 0 1 0 1 0''"] s3 by simp
  show ?thesis
    using s1 a1 s2 n2 s3 n3 by blast
qed

text \<open>
  C4. \<^verbatim>\<open>fix_label_format\<close> opens the label file for writing exactly when the text was
  neither empty nor taken as already correct and at least one line was accepted; the text
  written is then the accepted lines, and when the write works the result is
  \<^verbatim>\<open>Fixed n annotations\<close> with \<open>n\<close> the number of accepted lines. When the stripped text
  is empty the result is \<^verbatim>\<open>Empty file\<close> and the world is unchanged: no write is
  attempted. When there is text but no line is accepted the result is
  \<^verbatim>\<open>No valid annotations found\<close> and the world is unchanged: the file keeps its text.
\<close>

theorem repair_writes_iff_accepted:
  assumes "read_file w label_file = Inr raw"
  shows
   "(write_calls (snd (fix_label_format w label_file)) \<noteq> write_calls w \<longleftrightarrow>
       classify raw = Malformed \<and> fix_lines (all_annotations (strip raw)) \<noteq> []) \<and>
    (classify raw = Malformed \<and> fix_lines (all_annotations (strip raw)) \<noteq> [] \<longrightarrow>
       write_calls (snd (fix_label_format w label_file))
         = write_calls w @ [(label_file, serialize (fix_lines (all_annotations (strip raw))))] \<and>
       (write_error (disk w label_file) = None \<longrightarrow>
          fst (fix_label_format w label_file)
            = (True, ''Fixed '' @ py_str_int (int (length (fix_lines (all_annotations (strip raw)))))
                     @ '' annotations'') \<and>
          read_file (snd (fix_label_format w label_file)) label_file
            = Inr (serialize (fix_lines (all_annotations (strip raw)))))) \<and>
    (strip raw = [] \<longrightarrow> fix_label_format w label_file = ((False, ''Empty file''), w)) \<and>
    (strip raw \<noteq> [] \<and> classify raw \<noteq> WellFormed \<and> fix_lines (all_annotations (strip raw)) = [] \<longrightarrow>
       fix_label_format w label_file = ((False, ''No valid annotations found''), w))"
proof -
  have e: "classify raw = Empty \<longleftrightarrow> strip raw = []"
    by (simp add: classify_def Let_def)
  show ?thesis
  proof (cases "classify raw")
    case Empty
    then show ?thesis
      using assms e by (simp add: fix_label_format_def fix_label_format_try_def)
  next
    case WellFormed
    then show ?thesis
      using assms e by (auto simp add: fix_label_format_def fix_label_format_try_def)
  next
    case Malformed
    then show ?thesis
      using assms e
      by (cases "write_error (disk w label_file)")
         (auto simp add: fix_label_format_def fix_label_format_try_def Let_def write_file_def
            read_file_def)
  qed
qed

theorem repair_writes_iff_accepted_witness:
  "read_file (single_file_world ''40 0.1 0.2 0.3 0.4'') ''a.txt'' = Inr ''40 0.1 0.2 0.3 0.4'' \<and>
   fix_label_format (single_file_world ''40 0.1 0.2 0.3 0.4'') ''a.txt''
     = ((False, ''No valid annotations found''), single_file_world ''40 0.1 0.2 0.3 0.4'') \<and>
   read_file (single_file_world ''  '') ''a.txt'' = Inr ''  '' \<and>
   fix_label_format (single_file_world ''  '') ''a.txt''
     = ((False, ''Empty file''), single_file_world ''  '') \<and>
   read_file (single_file_world ''0 0 1 0.5 1'') ''a.txt'' = Inr ''0 0 1 0.5 1'' \<and>
   write_calls (snd (fix_label_format (single_file_world ''0 0 1 0.5 1'') ''a.txt''))
     = [(''a.txt'', ''0 0.000000 1.000000 0.500000 1.000000'' @ [newline])] \<and>
   fst (fix_label_format (single_file_world ''0 0 1 0.5 1'') ''a.txt'')
     = (True, ''Fixed 1 annotations'')"
proof -
  have r: "\<And>t. read_file (single_file_world t) ''a.txt'' = Inr t"
    by (simp add: read_file_def single_file_world_def)
  have a: "strip ''40 0.1 0.2 0.3 0.4'' \<noteq> [] \<and> classify ''40 0.1 0.2 0.3 0.4'' \<noteq> WellFormed \<and>
           fix_lines (all_annotations (strip ''40 0.1 0.2 0.3 0.4'')) = []"
    by code_simp
  have b: "strip ''  '' = []"
    by code_simp
  have c: "classify ''0 0 1 0.5 1'' = Malformed \<and>
           fix_lines (all_annotations (strip ''0 0 1 0.5 1'')) = [''0 0.000000 1.000000 0.500000 1.000000'']"
    by code_simp
  have d: "write_error (disk (single_file_world ''0 0 1 0.5 1'') ''a.txt'') = None \<and>
           write_calls (single_file_world ''0 0 1 0.5 1'') = []"
    by (simp add: single_file_world_def)
  have e: "py_str_int (int (length [''0 0.000000 1.000000 0.500000 1.000000''])) = ''1'' \<and>
           serialize [''0 0.000000 1.000000 0.500000 1.000000'']
             = ''0 0.000000 1.000000 0.500000 1.000000'' @ [newline]"
    by code_simp
  show ?thesis
    using repair_writes_iff_accepted [OF r [of "''40 0.1 0.2 0.3 0.4''"]]
      repair_writes_iff_accepted [OF r [of "''  ''"]]
      repair_writes_iff_accepted [OF r [of "''0 0 1 0.5 1''"]]
      r a b c d e
    by simp
qed

section \<open>Facts about the walk over the files\<close>

lemma classify_Empty_iff: "classify raw = Empty \<longleftrightarrow> strip raw = []"
  by (simp add: classify_def Let_def)

lemma fix_label_format_unreadable:
  "read_file w p = Inl e \<Longrightarrow> fix_label_format w p = ((False, ''Error: '' @ e), w)"
  by (simp add: fix_label_format_def fix_label_format_try_def)

lemma fix_label_format_empty:
  "read_file w p = Inr raw \<Longrightarrow> strip raw = [] \<Longrightarrow>
   fix_label_format w p = ((False, ''Empty file''), w)"
  using classify_Empty_iff [of raw]
  by (simp add: fix_label_format_def fix_label_format_try_def)

lemma fix_label_format_wellformed:
  "read_file w p = Inr raw \<Longrightarrow> classify raw = WellFormed \<Longrightarrow>
   fix_label_format w p = ((True, ''Already correct format''), w)"
  by (simp add: fix_label_format_def fix_label_format_try_def)

lemma fix_label_format_no_valid:
  "read_file w p = Inr raw \<Longrightarrow> classify raw = Malformed \<Longrightarrow>
   fix_lines (all_annotations (strip raw)) = [] \<Longrightarrow>
   fix_label_format w p = ((False, ''No valid annotations found''), w)"
  by (simp add: fix_label_format_def fix_label_format_try_def)

lemma fix_label_format_fixed:
  "read_file w p = Inr raw \<Longrightarrow> classify raw = Malformed \<Longrightarrow>
   fix_lines (all_annotations (strip raw)) \<noteq> [] \<Longrightarrow> write_error (disk w p) = None \<Longrightarrow>
   fix_label_format w p
     = ((True, ''Fixed '' @ py_str_int (int (length (fix_lines (all_annotations (strip raw)))))
               @ '' annotations''),
        w\<lparr>write_calls := write_calls w @ [(p, serialize (fix_lines (all_annotations (strip raw))))],
          disk := (disk w)(p := \<lparr>read_result = Inr (serialize (fix_lines (all_annotations (strip raw)))),
                                  write_error = None\<rparr>)\<rparr>)"
  by (simp add: fix_label_format_def fix_label_format_try_def write_file_def Let_def)

lemma fix_label_format_disk_other:
  "q \<noteq> p \<Longrightarrow> disk (snd (fix_label_format w p)) q = disk w q"
  by (auto simp add: fix_label_format_def fix_label_format_try_def Let_def write_file_def
      split: sum.splits file_class.splits option.splits)

lemma fix_label_format_result_cong:
  "disk w q = disk w' q \<Longrightarrow> fst (fix_label_format w q) = fst (fix_label_format w' q)"
  by (auto simp add: fix_label_format_def fix_label_format_try_def Let_def write_file_def
      read_file_def split: sum.splits file_class.splits option.splits)

lemma errors_count_result:
  "errors (count_result st r)
     = errors st + (if \<not> fst r \<and> \<not> contains ''Empty file'' (snd r) then 1 else 0)"
  by (cases r) (simp add: count_result_def)

lemma errors_fix_files:
  assumes "distinct files" and "\<forall>q\<in>set files. disk w q = disk w0 q"
  shows "errors (fst (fix_files (st, w) files))
           = errors st + length (filter (\<lambda>p. \<not> fst (fst (fix_label_format w0 p)) \<and>
                 \<not> contains ''Empty file'' (snd (fst (fix_label_format w0 p)))) files)"
  using assms
proof (induction files arbitrary: st w)
  case Nil
  then show ?case by simp
next
  case (Cons p rest)
  obtain r w' where rw: "fix_label_format w p = (r, w')"
    by (cases "fix_label_format w p")
  have same: "fst (fix_label_format w0 p) = r"
    using fix_label_format_result_cong [of w0 p w] Cons.prems(2) rw by simp
  have "\<forall>q\<in>set rest. disk w' q = disk w0 q"
  proof
    fix q assume q: "q \<in> set rest"
    then have "q \<noteq> p" using Cons.prems(1) by auto
    then have "disk w' q = disk w q"
      using fix_label_format_disk_other [of q p w] rw by simp
    then show "disk w' q = disk w0 q" using Cons.prems(2) q by simp
  qed
  then have "errors (fst (fix_files (count_result st r, w') rest))
           = errors (count_result st r) + length (filter (\<lambda>p. \<not> fst (fst (fix_label_format w0 p)) \<and>
                 \<not> contains ''Empty file'' (snd (fst (fix_label_format w0 p)))) rest)"
    using Cons.IH [of w' "count_result st r"] Cons.prems(1) by simp
  then show ?case
    using rw same by (simp add: errors_count_result)
qed

lemma fix_files_append:
  "fix_files sw (xs @ ys) = fix_files (fix_files sw xs) ys"
proof (induction xs arbitrary: sw)
  case Nil
  then show ?case by (cases sw) simp
next
  case (Cons x xs)
  then show ?case by (cases sw) (simp split: prod.splits)
qed

lemma fix_files_Nil: "fix_files sw [] = sw"
  by (cases sw) simp

lemma foldl_fix_split:
  "foldl (fix_split ds) sw splits
     = fix_files sw (concat (map (\<lambda>split. case label_files ds split of
                                              None \<Rightarrow> [] | Some files \<Rightarrow> files) splits))"
proof (induction splits arbitrary: sw)
  case Nil
  then show ?case by (simp add: fix_files_Nil)
next
  case (Cons a splits)
  then show ?case
    by (cases "label_files ds a") (simp_all add: fix_split_def fix_files_append fix_files_Nil)
qed

text \<open>
  C5, as the code has it. The \<^verbatim>\<open>errors\<close> counter of \<^verbatim>\<open>fix_all_labels\<close> counts the files
  for which \<^verbatim>\<open>fix_label_format\<close> returned a failure whose message does not contain
  \<^verbatim>\<open>Empty file\<close>. A file with text of which no line is accepted
  (\<^verbatim>\<open>No valid annotations found\<close>) is such a file, as is a file whose reading raised: the
  two are counted together, and no counter is kept for validation failures alone.
\<close>

theorem errors_counter:
  assumes "labels_exists ds"
    and "distinct (concat (map (\<lambda>split. case label_files ds split of
                                  None \<Rightarrow> [] | Some files \<Rightarrow> files) [''train'', ''val'', ''test'']))"
  shows "map_option errors (fst (fix_all_labels ds w))
           = Some (length (filter (\<lambda>p. \<not> fst (fst (fix_label_format w p)) \<and>
                     \<not> contains ''Empty file'' (snd (fst (fix_label_format w p))))
                (concat (map (\<lambda>split. case label_files ds split of
                                  None \<Rightarrow> [] | Some files \<Rightarrow> files) [''train'', ''val'', ''test'']))))
         \<and> \<not> fst (False, ''No valid annotations found'')
         \<and> \<not> contains ''Empty file'' (snd (False, ''No valid annotations found''))"
proof -
  let ?files = "concat (map (\<lambda>split. case label_files ds split of
                                  None \<Rightarrow> [] | Some files \<Rightarrow> files) [''train'', ''val'', ''test''])"
  let ?st0 = "\<lparr>fixed = 0, already_correct = 0, errors = 0, empty = 0\<rparr>"
  have "errors (fst (fix_files (?st0, w) ?files))
          = errors ?st0 + length (filter (\<lambda>p. \<not> fst (fst (fix_label_format w p)) \<and>
                     \<not> contains ''Empty file'' (snd (fst (fix_label_format w p)))) ?files)"
    using assms(2) by (intro errors_fix_files) simp_all
  moreover have "fix_all_labels ds w
      = (case fix_files (?st0, w) ?files of (st, w') \<Rightarrow> (Some st, w'))"
    using assms(1) by (simp only: fix_all_labels_def foldl_fix_split if_False not_True_eq_False not_not)
  moreover have "\<not> contains ''Empty file'' ''No valid annotations found''"
    by code_simp
  ultimately show ?thesis
    by (simp split: prod.splits)
qed

theorem errors_counter_witness:
  "map_option errors (fst (fix_all_labels
       \<lparr>labels_exists = True,
        label_files = (\<lambda>split. if split = ''train'' then Some [''a.txt'', ''b.txt''] else None)\<rparr>
       (single_file_world ''40 0.1 0.2 0.3 0.4''))) = Some 2"
proof -
  let ?ds = "\<lparr>labels_exists = True,
        label_files = (\<lambda>split. if split = ''train'' then Some [''a.txt'', ''b.txt''] else None)\<rparr>"
  have f: "concat (map (\<lambda>split. case label_files ?ds split of
                                  None \<Rightarrow> [] | Some files \<Rightarrow> files) [''train'', ''val'', ''test''])
           = [''a.txt'', ''b.txt'']"
    by simp
  have l: "labels_exists ?ds"
    by simp
  have d: "distinct (concat (map (\<lambda>split. case label_files ?ds split of
                                  None \<Rightarrow> [] | Some files \<Rightarrow> files) [''train'', ''val'', ''test'']))"
    unfolding f by simp
  have r: "\<And>p. fst (fix_label_format (single_file_world ''40 0.1 0.2 0.3 0.4'') p)
             = (False, ''No valid annotations found'')"
  proof -
    fix p
    have "read_file (single_file_world ''40 0.1 0.2 0.3 0.4'') p = Inr ''40 0.1 0.2 0.3 0.4''"
      by (simp add: read_file_def single_file_world_def)
    moreover have "classify ''40 0.1 0.2 0.3 0.4'' = Malformed"
      by code_simp
    moreover have "fix_lines (all_annotations (strip ''40 0.1 0.2 0.3 0.4'')) = []"
      by code_simp
    ultimately show "fst (fix_label_format (single_file_world ''40 0.1 0.2 0.3 0.4'') p)
             = (False, ''No valid annotations found'')"
      by (simp add: fix_label_format_no_valid)
  qed
  have c: "\<not> contains ''Empty file'' ''No valid annotations found''"
    by code_simp
  show ?thesis
    using errors_counter [OF l d, of "single_file_world ''40 0.1 0.2 0.3 0.4''"] r c
    unfolding f by (auto simp add: numeral_2_eq_2)
qed

text \<open>
  C5, as the claim states it, fails: a file whose only line has the class 40 is read and
  processed without any exception, and the summary counts it under \<^verbatim>\<open>errors\<close>.
\<close>

theorem errors_counter_counterexample:
  "fst (fix_label_format_try (single_file_world ''40 0.1 0.2 0.3 0.4'') ''a.txt'')
     = Inr (False, ''No valid annotations found'') \<and>
   map_option errors (fst (fix_all_labels
       \<lparr>labels_exists = True,
        label_files = (\<lambda>split. if split = ''train'' then Some [''a.txt''] else None)\<rparr>
       (single_file_world ''40 0.1 0.2 0.3 0.4''))) = Some 1"
  by code_simp

lemma replace_escaped_nl_at:
  "replace_escaped_nl (a @ backslash # CHR ''n'' # b)
     = replace_escaped_nl a @ newline # replace_escaped_nl b"
  by (induction a rule: replace_escaped_nl.induct) (simp_all add: backslash_def)

text \<open>
  C6. \<^verbatim>\<open>fix_label_format\<close> first replaces each backslash followed by \<^verbatim>\<open>n\<close> by a line
  feed and then splits at line feeds. The text of one physical line
  \<^verbatim>\<open>10 0.1 0.2 0.3 0.4\n12 0.5 0.5 0.1 0.1\<close> (with a backslash and an \<^verbatim>\<open>n\<close> in it) is
  repaired to the two lines \<^verbatim>\<open>10 0.100000 0.200000 0.300000 0.400000\<close> and
  \<^verbatim>\<open>12 0.500000 0.500000 0.100000 0.100000\<close>, which are written to the file.
\<close>

theorem escaped_newline_repair:
  "(\<forall>a b. all_annotations (a @ [backslash, CHR ''n''] @ b)
            = split_nl (replace_escaped_nl a @ [newline] @ replace_escaped_nl b)) \<and>
   fix_lines (all_annotations (''10 0.1 0.2 0.3 0.4'' @ [backslash, CHR ''n''] @ ''12 0.5 0.5 0.1 0.1''))
     = [''10 0.100000 0.200000 0.300000 0.400000'', ''12 0.500000 0.500000 0.100000 0.100000''] \<and>
   fst (fix_label_format
          (single_file_world (''10 0.1 0.2 0.3 0.4'' @ [backslash, CHR ''n''] @ ''12 0.5 0.5 0.1 0.1''))
          ''a.txt'')
     = (True, ''Fixed 2 annotations'') \<and>
   write_calls (snd (fix_label_format
          (single_file_world (''10 0.1 0.2 0.3 0.4'' @ [backslash, CHR ''n''] @ ''12 0.5 0.5 0.1 0.1''))
          ''a.txt''))
     = [(''a.txt'', ''10 0.100000 0.200000 0.300000 0.400000'' @ [newline]
                    @ ''12 0.500000 0.500000 0.100000 0.100000'' @ [newline])]"
proof (intro conjI allI)
  fix a b
  show "all_annotations (a @ [backslash, CHR ''n''] @ b)
            = split_nl (replace_escaped_nl a @ [newline] @ replace_escaped_nl b)"
    by (simp add: all_annotations_def replace_escaped_nl_at)
next
  show "fix_lines (all_annotations (''10 0.1 0.2 0.3 0.4'' @ [backslash, CHR ''n''] @ ''12 0.5 0.5 0.1 0.1''))
     = [''10 0.100000 0.200000 0.300000 0.400000'', ''12 0.500000 0.500000 0.100000 0.100000'']"
    by code_simp
next
  show "fst (fix_label_format
          (single_file_world (''10 0.1 0.2 0.3 0.4'' @ [backslash, CHR ''n''] @ ''12 0.5 0.5 0.1 0.1''))
          ''a.txt'')
     = (True, ''Fixed 2 annotations'')"
    by code_simp
next
  show "write_calls (snd (fix_label_format
          (single_file_world (''10 0.1 0.2 0.3 0.4'' @ [backslash, CHR ''n''] @ ''12 0.5 0.5 0.1 0.1''))
          ''a.txt''))
     = [(''a.txt'', ''10 0.100000 0.200000 0.300000 0.400000'' @ [newline]
                    @ ''12 0.500000 0.500000 0.100000 0.100000'' @ [newline])]"
    by code_simp
qed

section \<open>Facts about the verification\<close>

lemma verify_lines_blank:
  "strip l = [] \<Longrightarrow>
   verify_lines (fv, fo, b, pg) (l # rest) = verify_lines (fv, fo, b, pg) rest"
  by simp

lemma fix_line_blank: "strip l = [] \<Longrightarrow> fix_line l = None"
  by (simp add: fix_line_def)

lemma verify_lines_step:
  assumes "strip l \<noteq> []"
  shows "verify_lines (fv, fo, b, pg) (l # rest)
     = (if fix_line l = None then (False, fo, b, pg)
        else if length (split_ws l) = 5 then verify_lines (fv, fo + 1, b + 1, pg) rest
        else verify_lines (fv, fo + 1, b, pg + 1) rest)"
proof (cases "parse_values (split_ws l)")
  case None
  then show ?thesis
    using assms by (simp add: fix_line_def Let_def split_ws_strip)
next
  case (Some v)
  obtain class_id coords where v: "v = (class_id, coords)"
    by (cases v)
  show ?thesis
  proof (cases "values_valid class_id coords")
    case True
    then show ?thesis
      using assms Some v
      by (simp add: fix_line_def Let_def split_ws_strip values_valid_def)
  next
    case False
    then have "\<not> (0 \<le> class_id \<and> class_id \<le> 39) \<or> \<not> list_all in_unit coords"
      by (simp add: values_valid_def)
    then show ?thesis
      using assms Some v False
      by (simp add: fix_line_def Let_def split_ws_strip)
  qed
qed

lemma fix_line_Some_count:
  "fix_line l \<noteq> None \<Longrightarrow> length (split_ws l) \<noteq> 5 \<Longrightarrow> 7 \<le> length (split_ws l)"
  by (cases "recognized_count (length (split_ws l))")
     (auto simp: recognized_count_def fix_line_other_count)

lemma verify_lines_eq:
  "verify_lines (True, file_objects, bboxes, polygons) ls
     = (list_all (\<lambda>l. strip l = [] \<or> fix_line l \<noteq> None) ls,
        file_objects + length (filter (\<lambda>l. strip l \<noteq> [])
           (takeWhile (\<lambda>l. strip l = [] \<or> fix_line l \<noteq> None) ls)),
        bboxes + length (filter (\<lambda>l. fix_line l \<noteq> None \<and> length (split_ws l) = 5)
           (takeWhile (\<lambda>l. strip l = [] \<or> fix_line l \<noteq> None) ls)),
        polygons + length (filter (\<lambda>l. fix_line l \<noteq> None \<and> 7 \<le> length (split_ws l))
           (takeWhile (\<lambda>l. strip l = [] \<or> fix_line l \<noteq> None) ls)))"
proof (induction ls arbitrary: file_objects bboxes polygons)
  case Nil
  then show ?case by simp
next
  case (Cons l ls)
  show ?case
  proof (cases "strip l = []")
    case True
    then show ?thesis
      using Cons.IH fix_line_blank [of l] by (simp only: verify_lines_blank) simp
  next
    case False
    note nb = this
    show ?thesis
    proof (cases "fix_line l = None")
      case True
      then show ?thesis
        using nb by (simp only: verify_lines_step [OF nb]) simp
    next
      case False
      note acc = this
      show ?thesis
      proof (cases "length (split_ws l) = 5")
        case True
        then show ?thesis
          using nb acc Cons.IH by (simp only: verify_lines_step [OF nb]) simp
      next
        case False
        then show ?thesis
          using nb acc Cons.IH fix_line_Some_count [of l]
          by (simp only: verify_lines_step [OF nb]) simp
      qed
    qed
  qed
qed


lemma takeWhile_all: "list_all P xs \<Longrightarrow> takeWhile P xs = xs"
  by (induction xs) simp_all

lemma filter_nonempty_iff: "0 < length (filter P xs) \<longleftrightarrow> (\<exists>x\<in>set xs. P x)"
  by (induction xs) auto

text \<open>
  C9, as the code has it. For each file that can be read, \<^verbatim>\<open>verify_fixed_format\<close> checks
  the non-blank lines in order with the rule by which the repair accepts a line, and stops
  at the first line that fails. The file counts as valid exactly when every non-blank line
  passed and there is at least one; the counters of boxes and of polygons grow by the
  numbers of accepted lines of 5 tokens and of 7 or more tokens before the first line
  that fails, which are all such lines of the file when none fails. A file that cannot be
  read leaves the counters as they are.
\<close>

theorem verify_file_counts:
  "(read_file w label_file = Inr text \<longrightarrow>
      valid_files (verify_file w c label_file)
        = valid_files c +
          (if list_all (\<lambda>l. strip l = [] \<or> fix_line l \<noteq> None) (readlines text) \<and>
              (\<exists>l\<in>set (readlines text). strip l \<noteq> []) then 1 else 0) \<and>
      bbox_count (verify_file w c label_file)
        = bbox_count c +
          length (filter (\<lambda>l. fix_line l \<noteq> None \<and> length (split_ws l) = 5)
            (takeWhile (\<lambda>l. strip l = [] \<or> fix_line l \<noteq> None) (readlines text))) \<and>
      polygon_count (verify_file w c label_file)
        = polygon_count c +
          length (filter (\<lambda>l. fix_line l \<noteq> None \<and> 7 \<le> length (split_ws l))
            (takeWhile (\<lambda>l. strip l = [] \<or> fix_line l \<noteq> None) (readlines text))) \<and>
      (list_all (\<lambda>l. strip l = [] \<or> fix_line l \<noteq> None) (readlines text) \<longrightarrow>
         bbox_count (verify_file w c label_file)
           = bbox_count c +
             length (filter (\<lambda>l. fix_line l \<noteq> None \<and> length (split_ws l) = 5) (readlines text)) \<and>
         polygon_count (verify_file w c label_file)
           = polygon_count c +
             length (filter (\<lambda>l. fix_line l \<noteq> None \<and> 7 \<le> length (split_ws l)) (readlines text)))) \<and>
   (read_file w label_file = Inl e \<longrightarrow> verify_file w c label_file = c)"
proof (intro conjI impI)
  assume "read_file w label_file = Inl e"
  then show "verify_file w c label_file = c"
    by (simp add: verify_file_def)
next
  assume r: "read_file w label_file = Inr text"
  let ?ok = "\<lambda>l. strip l = [] \<or> fix_line l \<noteq> None"
  let ?ls = "readlines text"
  have v: "verify_file w c label_file =
      (if list_all ?ok ?ls \<and> 0 < length (filter (\<lambda>l. strip l \<noteq> []) (takeWhile ?ok ?ls))
       then c\<lparr>valid_files := valid_files c + 1,
              total_objects := total_objects c
                 + (0 + length (filter (\<lambda>l. strip l \<noteq> []) (takeWhile ?ok ?ls))),
              bbox_count := bbox_count c
                 + length (filter (\<lambda>l. fix_line l \<noteq> None \<and> length (split_ws l) = 5) (takeWhile ?ok ?ls)),
              polygon_count := polygon_count c
                 + length (filter (\<lambda>l. fix_line l \<noteq> None \<and> 7 \<le> length (split_ws l)) (takeWhile ?ok ?ls))\<rparr>
       else c\<lparr>bbox_count := bbox_count c
                 + length (filter (\<lambda>l. fix_line l \<noteq> None \<and> length (split_ws l) = 5) (takeWhile ?ok ?ls)),
              polygon_count := polygon_count c
                 + length (filter (\<lambda>l. fix_line l \<noteq> None \<and> 7 \<le> length (split_ws l)) (takeWhile ?ok ?ls))\<rparr>)"
  proof (cases "?ls = []")
    case True
    then show ?thesis using r by (simp add: verify_file_def)
  next
    case False
    then show ?thesis using r by (simp add: verify_file_def Let_def verify_lines_eq)
  qed
  have ex: "list_all ?ok ?ls \<Longrightarrow>
      0 < length (filter (\<lambda>l. strip l \<noteq> []) (takeWhile ?ok ?ls)) \<longleftrightarrow> (\<exists>l\<in>set ?ls. strip l \<noteq> [])"
    by (simp only: takeWhile_all filter_nonempty_iff)
  show "valid_files (verify_file w c label_file)
        = valid_files c + (if list_all ?ok ?ls \<and> (\<exists>l\<in>set ?ls. strip l \<noteq> []) then 1 else 0)"
    using ex by (auto simp add: v)
  show b: "bbox_count (verify_file w c label_file)
        = bbox_count c +
          length (filter (\<lambda>l. fix_line l \<noteq> None \<and> length (split_ws l) = 5) (takeWhile ?ok ?ls))"
    by (simp add: v)
  show p: "polygon_count (verify_file w c label_file)
        = polygon_count c +
          length (filter (\<lambda>l. fix_line l \<noteq> None \<and> 7 \<le> length (split_ws l)) (takeWhile ?ok ?ls))"
    by (simp add: v)
  assume a: "list_all ?ok ?ls"
  show "bbox_count (verify_file w c label_file)
           = bbox_count c +
             length (filter (\<lambda>l. fix_line l \<noteq> None \<and> length (split_ws l) = 5) ?ls)"
    unfolding b takeWhile_all [OF a] by (rule refl)
  show "polygon_count (verify_file w c label_file)
           = polygon_count c +
             length (filter (\<lambda>l. fix_line l \<noteq> None \<and> 7 \<le> length (split_ws l)) ?ls)"
    unfolding p takeWhile_all [OF a] by (rule refl)
qed

theorem verify_file_counts_witness:
  "read_file (single_file_world (''0 0 0 0 0'' @ [newline] @ [newline] @ ''0 0 1 0 1 0 1'' @ [newline]))
     ''a.txt''
     = Inr (''0 0 0 0 0'' @ [newline] @ [newline] @ ''0 0 1 0 1 0 1'' @ [newline]) \<and>
   valid_files (verify_file
       (single_file_world (''0 0 0 0 0'' @ [newline] @ [newline] @ ''0 0 1 0 1 0 1'' @ [newline]))
       \<lparr>valid_files = 0, total_objects = 0, bbox_count = 0, polygon_count = 0\<rparr> ''a.txt'') = 1 \<and>
   bbox_count (verify_file
       (single_file_world (''0 0 0 0 0'' @ [newline] @ [newline] @ ''0 0 1 0 1 0 1'' @ [newline]))
       \<lparr>valid_files = 0, total_objects = 0, bbox_count = 0, polygon_count = 0\<rparr> ''a.txt'') = 1 \<and>
   polygon_count (verify_file
       (single_file_world (''0 0 0 0 0'' @ [newline] @ [newline] @ ''0 0 1 0 1 0 1'' @ [newline]))
       \<lparr>valid_files = 0, total_objects = 0, bbox_count = 0, polygon_count = 0\<rparr> ''a.txt'') = 1"
proof -
  let ?t = "''0 0 0 0 0'' @ [newline] @ [newline] @ ''0 0 1 0 1 0 1'' @ [newline]"
  have r: "read_file (single_file_world ?t) ''a.txt'' = Inr ?t"
    by (simp add: read_file_def single_file_world_def)
  have a: "list_all (\<lambda>l. strip l = [] \<or> fix_line l \<noteq> None) (readlines ?t)"
    by code_simp
  have n: "\<exists>l\<in>set (readlines ?t). strip l \<noteq> []"
    by code_simp
  have b: "length (filter (\<lambda>l. fix_line l \<noteq> None \<and> length (split_ws l) = 5) (readlines ?t)) = 1"
    by code_simp
  have p: "length (filter (\<lambda>l. fix_line l \<noteq> None \<and> 7 \<le> length (split_ws l)) (readlines ?t)) = 1"
    by code_simp
  show ?thesis
    using verify_file_counts [of "single_file_world ?t" "''a.txt''" ?t
        "\<lparr>valid_files = 0, total_objects = 0, bbox_count = 0, polygon_count = 0\<rparr>"]
      r a n b p
    by simp
qed

text \<open>
  C9, as the claim states it, fails: in a file with an accepted box line, a line that is
  rejected and another accepted box line, two box lines pass the acceptance rule, and the
  counter of boxes grows by one, because the check stops at the rejected line.
\<close>

theorem verify_file_counts_counterexample:
  "length (filter (\<lambda>l. fix_line l \<noteq> None \<and> length (split_ws l) = 5)
      (readlines (''0 0 0 0 0'' @ [newline] @ ''x'' @ [newline] @ ''0 0 0 0 0'' @ [newline]))) = 2 \<and>
   bbox_count (verify_file
       (single_file_world (''0 0 0 0 0'' @ [newline] @ ''x'' @ [newline] @ ''0 0 0 0 0'' @ [newline]))
       \<lparr>valid_files = 0, total_objects = 0, bbox_count = 0, polygon_count = 0\<rparr> ''a.txt'') = 1"
  by code_simp

end
